theory Spec2Isabelle
  imports Main "HOL-Library.Word"
begin

section \<open>Data model\<close>

text \<open>
  The reader of the \<^verbatim>\<open>hard\<close> backend keeps its cursor in two \<^verbatim>\<open>int64\<close> fields.
  They are 64-bit words here, compared as signed values (\<open><s\<close>, \<open>\<le>s\<close>) the way Go
  compares them; \<open>+\<close> wraps around as Go's \<^verbatim>\<open>+=\<close> does.
\<close>

type_synonym int64 = "64 word"

type_synonym byte = char

text \<open>
  Go's \<^verbatim>\<open>error\<close> values. \<^verbatim>\<open>io.EOF\<close> and \<^verbatim>\<open>chunkedreader.ErrorFileClosed\<close> are the two
  the reader names; every other error of the remote is a \<open>RemoteError\<close> with an
  opaque tag. A \<^verbatim>\<open>nil\<close> error is \<open>None\<close> of \<open>error option\<close>.
\<close>

datatype error = EOF | ErrorFileClosed | RemoteError nat

text \<open>
  \<^verbatim>\<open>fs.OpenOption\<close>: the two directives the backend inspects and builds,
  \<^verbatim>\<open>&fs.SeekOption{Offset}\<close> and \<^verbatim>\<open>&fs.RangeOption{Start, End}\<close>, and every other
  option, opaque.
\<close>

datatype openOption = SeekOption int64 | RangeOption int64 int64 | OtherOption nat

text \<open>
  The underlying \<^verbatim>\<open>io.ReadCloser\<close> the remote hands out. What it will answer is not
  decided by the reader, so a handle carries the answers still to come: each
  \<^verbatim>\<open>Read(p)\<close> of the handle takes the next pair of the bytes it put at the front of
  \<^verbatim>\<open>p\<close> (\<^verbatim>\<open>n\<close> is their number) and the error it returned; \<^verbatim>\<open>Close()\<close> returns
  \<open>closeErr\<close>.
\<close>

datatype stream = Stream (reads: "(byte list \<times> error option) list") (closeErr: "error option")

text \<open>The wrapped \<^verbatim>\<open>fs.Object\<close>: its name and what \<^verbatim>\<open>Size()\<close> reports.\<close>

datatype fsObject = FsObject (Remote: string) (Size: int64)

text \<open>
  The remote, outside the reader: \<open>pending\<close> are the answers its next \<^verbatim>\<open>Open\<close> calls
  will give, in order, each the pair \<^verbatim>\<open>(rc, err)\<close> that Go's \<^verbatim>\<open>Open\<close> returns: a handle
  or \<^verbatim>\<open>nil\<close>, and an error or \<^verbatim>\<open>nil\<close>, in any of the four combinations; \<open>requests\<close>
  records the option list of every \<^verbatim>\<open>Open\<close> call made so far and \<open>released\<close> every
  handle whose \<^verbatim>\<open>Close\<close> was called.
\<close>

record world =
  pending :: "(stream option \<times> error option) list"
  requests :: "openOption list list"
  released :: "stream list"

text \<open>\<^verbatim>\<open>type hardReader struct\<close>; the field \<^verbatim>\<open>o\<close> is \<open>o_ref\<close>, \<^verbatim>\<open>nil\<close> is \<open>None\<close>.\<close>

record hardReader =
  o_ref :: "fsObject option"
  rc :: "stream option"
  options :: "openOption list"
  offset :: int64
  limit :: int64
  eofReached :: bool
  closed :: bool

section \<open>Option derivation\<close>

definition appendSeekOption :: "openOption list \<Rightarrow> int64 \<Rightarrow> int64 \<Rightarrow> openOption list" where
  "appendSeekOption opts off lim =
     (if lim = - 1 then
        (if 0 <s off then opts @ [SeekOption off] else opts)
      else
        (if 0 <s off then opts @ [RangeOption off lim] else opts))"

section \<open>The facade's open\<close>

text \<open>
  \<^verbatim>\<open>fs.RangeOption.Decode\<close> is not part of the backend's source; \<^verbatim>\<open>Object.Open\<close> only
  calls it. It is a parameter here: a function of the directive's \<^verbatim>\<open>Start\<close> and
  \<^verbatim>\<open>End\<close> and of the object's size that gives the pair (offset, limit).
\<close>

type_synonym decoder = "int64 \<Rightarrow> int64 \<Rightarrow> int64 \<Rightarrow> int64 \<times> int64"

text \<open>
  The \<^verbatim>\<open>for _, option := range options\<close> loop of \<^verbatim>\<open>Object.Open\<close> with its type
  switch; the triple is \<^verbatim>\<open>(openOptions, offset, limit)\<close>.
\<close>

fun scanOptions ::
  "decoder \<Rightarrow> int64 \<Rightarrow> openOption list \<Rightarrow> openOption list \<times> int64 \<times> int64
     \<Rightarrow> openOption list \<times> int64 \<times> int64" where
  "scanOptions dec sz [] acc = acc"
| "scanOptions dec sz (SeekOption x # rest) (openOptions, off, lim) =
     scanOptions dec sz rest (openOptions, x, lim)"
| "scanOptions dec sz (RangeOption s e # rest) (openOptions, off, lim) =
     scanOptions dec sz rest (openOptions, fst (dec s e sz), snd (dec s e sz))"
| "scanOptions dec sz (OtherOption k # rest) (openOptions, off, lim) =
     scanOptions dec sz rest (openOptions @ [OtherOption k], off, lim)"

text \<open>\<^verbatim>\<open>func (o *Object) Open\<close>; \<open>ob\<close> is the wrapped \<^verbatim>\<open>o.Object\<close>. It returns the reader and the error.\<close>

definition Object_Open :: "decoder \<Rightarrow> fsObject \<Rightarrow> openOption list \<Rightarrow> hardReader \<times> error option" where
  "Object_Open dec ob opts =
     (case scanOptions dec (Size ob) opts ([], 0, - 1) of
        (openOptions, off, lim) \<Rightarrow>
          (\<lparr>o_ref = Some ob, rc = None, options = openOptions, offset = off, limit = lim,
            eofReached = False, closed = False\<rparr>, None))"

section \<open>The reader's read\<close>

text \<open>
  \<^verbatim>\<open>r.o.Open(context.Background(), newOpts...)\<close>: the remote takes its next pending
  answer and records the request. \<open>None\<close> means the remote has not answered (no pending
  answer is left), so the call is still waiting.
\<close>

definition remoteOpen ::
  "world \<Rightarrow> openOption list \<Rightarrow> ((stream option \<times> error option) \<times> world) option" where
  "remoteOpen w newOpts =
     (case pending w of
        [] \<Rightarrow> None
      | resp # rest \<Rightarrow> Some (resp, w\<lparr>pending := rest, requests := requests w @ [newOpts]\<rparr>))"

text \<open>\<^verbatim>\<open>r.rc.Read(p)\<close>: the handle's next answer and the handle after it.\<close>

definition streamRead :: "stream \<Rightarrow> ((byte list \<times> error option) \<times> stream) option" where
  "streamRead s =
     (case reads s of
        [] \<Rightarrow> None
      | x # rest \<Rightarrow> Some (x, Stream rest (closeErr s)))"

text \<open>
  One pass through the body of the \<^verbatim>\<open>for\<close> loop of \<^verbatim>\<open>hardReader.Read\<close> ends in
  \<^verbatim>\<open>continue\<close> or in \<^verbatim>\<open>return n, err\<close>, or it panics: \<^verbatim>\<open>r.rc.Read(p)\<close> on a
  \<^verbatim>\<open>nil\<close> handle, which happens when \<^verbatim>\<open>Open\<close> answered \<^verbatim>\<open>(nil, nil)\<close>.
\<close>

datatype outcome =
  Continue hardReader world
| Return "byte list" "error option" hardReader world
| Panic hardReader world

text \<open>
  The second half of the loop body, from \<^verbatim>\<open>n, err = r.rc.Read(p)\<close> on; \<open>s\<close> is the
  live handle \<^verbatim>\<open>r.rc\<close>.
\<close>

definition readFrom :: "world \<Rightarrow> hardReader \<Rightarrow> stream \<Rightarrow> outcome option" where
  "readFrom w r s =
     (case streamRead s of
        None \<Rightarrow> None
      | Some ((bs, err), s') \<Rightarrow>
          (if err = Some EOF then
             Some (Return bs err (r\<lparr>rc := Some s', eofReached := True\<rparr>) w)
           else if err \<noteq> None then
             (if bs \<noteq> [] then
                Some (Return bs None
                  (r\<lparr>rc := None, offset := offset r + of_nat (length bs)\<rparr>) w)
              else Some (Continue (r\<lparr>rc := None\<rparr>) w))
           else
             Some (Return bs err
               (r\<lparr>rc := Some s', offset := offset r + of_nat (length bs)\<rparr>) w)))"

text \<open>
  The whole loop body: reopen when there is no live handle, then read. The assignment
  \<^verbatim>\<open>r.rc, err = r.o.Open(...)\<close> stores whatever handle came back, also next to an error;
  the failure branch then sets \<^verbatim>\<open>r.rc = nil\<close>.
\<close>

definition iteration :: "world \<Rightarrow> hardReader \<Rightarrow> outcome option" where
  "iteration w r =
     (case rc r of
        None \<Rightarrow>
          (case remoteOpen w (appendSeekOption ([] @ options r) (offset r) (limit r)) of
             None \<Rightarrow> None
           | Some ((h, err), w') \<Rightarrow>
               (if err \<noteq> None then Some (Continue ((r\<lparr>rc := h\<rparr>)\<lparr>rc := None\<rparr>) w')
                else
                  (case h of
                     None \<Rightarrow> Some (Panic (r\<lparr>rc := h\<rparr>) w')
                   | Some s \<Rightarrow> readFrom w' (r\<lparr>rc := h\<rparr>) s)))
      | Some s \<Rightarrow> readFrom w r s)"

text \<open>
  The \<^verbatim>\<open>for\<close> loop. It has no bound of its own: it ends when a pass returns. It
  is \<open>None\<close> when the call does not return: the remote's pending answers run out first,
  or a pass panics.
\<close>

function readLoop ::
  "world \<Rightarrow> hardReader \<Rightarrow> ((byte list \<times> error option) \<times> hardReader \<times> world) option" where
  "readLoop w r =
     (case iteration w r of
        None \<Rightarrow> None
      | Some (Continue r' w') \<Rightarrow> readLoop w' r'
      | Some (Return bs err r' w') \<Rightarrow> Some ((bs, err), r', w')
      | Some (Panic r' w') \<Rightarrow> None)"
  by pat_completeness auto

termination readLoop
  by (relation "measure (\<lambda>(w, r). 2 * length (pending w) + (if rc r = None then 0 else 1))")
     (auto simp: iteration_def remoteOpen_def readFrom_def streamRead_def
           split: option.splits list.splits prod.splits if_splits)

declare readLoop.simps [simp del]

text \<open>\<^verbatim>\<open>func (r *hardReader) Read\<close>: the three checks, then the loop.\<close>

definition hardReader_Read ::
  "world \<Rightarrow> hardReader \<Rightarrow> ((byte list \<times> error option) \<times> hardReader \<times> world) option" where
  "hardReader_Read w r =
     (if closed r then Some (([], Some ErrorFileClosed), r, w)
      else if eofReached r then Some (([], Some EOF), r, w)
      else if limit r \<noteq> - 1 \<and> limit r \<le>s offset r then
        Some (([], Some EOF), r\<lparr>eofReached := True\<rparr>, w)
      else readLoop w r)"

text \<open>Successive \<^verbatim>\<open>Read\<close> calls of one caller, with their results in order.\<close>

fun readCalls ::
  "nat \<Rightarrow> world \<Rightarrow> hardReader
     \<Rightarrow> ((byte list \<times> error option) list \<times> hardReader \<times> world) option" where
  "readCalls 0 w r = Some ([], r, w)"
| "readCalls (Suc k) w r =
     (case hardReader_Read w r of
        None \<Rightarrow> None
      | Some (res, r', w') \<Rightarrow>
          (case readCalls k w' r' of
             None \<Rightarrow> None
           | Some (ress, r'', w'') \<Rightarrow> Some (res # ress, r'', w'')))"

section \<open>The reader's close\<close>

text \<open>\<^verbatim>\<open>func (r *hardReader) Close\<close>: the error it returns, the reader and the remote after it.\<close>

definition hardReader_Close :: "world \<Rightarrow> hardReader \<Rightarrow> error option \<times> hardReader \<times> world" where
  "hardReader_Close w r =
     (if closed r then (Some ErrorFileClosed, r, w)
      else
        (case rc r of
           None \<Rightarrow> (None, r\<lparr>rc := None, o_ref := None, closed := True\<rparr>, w)
         | Some s \<Rightarrow>
             (closeErr s, r\<lparr>rc := None, o_ref := None, closed := True\<rparr>,
              w\<lparr>released := released w @ [s]\<rparr>)))"

section \<open>What the specification speaks of\<close>

text \<open>
  The directives of a caller as the specification sorts them: passthrough options, range
  directives, and seek-or-range directives.
\<close>

fun isPassthrough :: "openOption \<Rightarrow> bool" where
  "isPassthrough (OtherOption k) = True"
| "isPassthrough (SeekOption x) = False"
| "isPassthrough (RangeOption s e) = False"

fun isRange :: "openOption \<Rightarrow> bool" where
  "isRange (RangeOption s e) = True"
| "isRange (SeekOption x) = False"
| "isRange (OtherOption k) = False"

fun isDirective :: "openOption \<Rightarrow> bool" where
  "isDirective (OtherOption k) = False"
| "isDirective (SeekOption x) = True"
| "isDirective (RangeOption s e) = True"

text \<open>
  The offset a list of directives asks for: that of its last seek or range directive, the
  range decoded against the size; 0 without one. The limit: that of its last range
  directive; \<open>- 1\<close> (unbounded) without one.
\<close>

definition requestedOffset :: "decoder \<Rightarrow> int64 \<Rightarrow> openOption list \<Rightarrow> int64" where
  "requestedOffset dec sz opts =
     (if filter isDirective opts = [] then 0
      else (case last (filter isDirective opts) of
              SeekOption x \<Rightarrow> x
            | RangeOption s e \<Rightarrow> fst (dec s e sz)
            | OtherOption k \<Rightarrow> 0))"

definition requestedLimit :: "decoder \<Rightarrow> int64 \<Rightarrow> openOption list \<Rightarrow> int64" where
  "requestedLimit dec sz opts =
     (if filter isRange opts = [] then - 1
      else (case last (filter isRange opts) of
              RangeOption s e \<Rightarrow> snd (dec s e sz)
            | _ \<Rightarrow> - 1))"

text \<open>The reader a pass of the loop leaves behind.\<close>

fun outcomeReader :: "outcome \<Rightarrow> hardReader" where
  "outcomeReader (Continue r w) = r"
| "outcomeReader (Return bs err r w) = r"
| "outcomeReader (Panic r w) = r"

fun panicked :: "outcome \<Rightarrow> bool" where
  "panicked (Panic r w) = True"
| "panicked (Continue r w) = False"
| "panicked (Return bs err r w) = False"

text \<open>
  A pass whose attempt to open fails: there is no live handle and the remote's next
  answer carries an error, with or without a handle beside it.
\<close>

definition openFails :: "world \<Rightarrow> hardReader \<Rightarrow> bool" where
  "openFails w r =
     (rc r = None \<and> (case pending w of (h, Some e) # rest \<Rightarrow> True | _ \<Rightarrow> False))"

text \<open>
  The handle a pass reads from: the live one, or the one the remote's next answer opens.
\<close>

definition liveHandle :: "world \<Rightarrow> hardReader \<Rightarrow> stream option" where
  "liveHandle w r =
     (case rc r of
        Some s \<Rightarrow> Some s
      | None \<Rightarrow> (case pending w of (Some s, None) # rest \<Rightarrow> Some s | _ \<Rightarrow> None))"

text \<open>
  A pass whose underlying read delivers the bytes \<open>bs\<close> and an error that is not
  end-of-data.
\<close>

definition readFails :: "world \<Rightarrow> hardReader \<Rightarrow> byte list \<Rightarrow> bool" where
  "readFails w r bs =
     (case liveHandle w r of
        None \<Rightarrow> False
      | Some s \<Rightarrow>
          (case reads s of
             (bs', Some e) # later \<Rightarrow> bs' = bs \<and> e \<noteq> EOF
           | _ \<Rightarrow> False))"

text \<open>One retry: a pass from the first state ends in \<^verbatim>\<open>continue\<close> with the second.\<close>

definition retryStep :: "world \<times> hardReader \<Rightarrow> world \<times> hardReader \<Rightarrow> bool" where
  "retryStep a b = (iteration (fst a) (snd a) = Some (Continue (snd b) (fst b)))"

text \<open>The number of bytes a run of read calls delivered.\<close>

definition delivered :: "(byte list \<times> error option) list \<Rightarrow> nat" where
  "delivered ress = sum_list (map (\<lambda>res. length (fst res)) ress)"

section \<open>Sample readers and remotes\<close>

definition freshReader :: "int64 \<Rightarrow> int64 \<Rightarrow> hardReader" where
  "freshReader off lim =
     \<lparr>o_ref = Some (FsObject ''obj'' 10), rc = None, options = [OtherOption 7],
      offset = off, limit = lim, eofReached = False, closed = False\<rparr>"

definition remoteOf :: "(stream option \<times> error option) list \<Rightarrow> world" where
  "remoteOf answers = \<lparr>pending = answers, requests = [], released = []\<rparr>"

text \<open>
  The remote of the specification's scenario, for a reader of bytes 3 to 8 of the object
  \<^verbatim>\<open>0123456789\<close>: its first open fails; its second gives a handle that delivers
  \<^verbatim>\<open>345\<close> and then fails without a byte; its third gives a handle that delivers
  \<^verbatim>\<open>67\<close> and signals end-of-data, either together with these bytes or on the next
  read.
\<close>

definition scenarioRemote :: "bool \<Rightarrow> world" where
  "scenarioRemote together =
     remoteOf
       [(None, Some (RemoteError 1)),
        (Some (Stream [(''345'', None), ([], Some (RemoteError 2))] None), None),
        (Some (Stream (if together then [(''67'', Some EOF)]
                     else [(''67'', None), ([], Some EOF)]) None), None)]"

section \<open>Theorems\<close>

lemmas model_defs =
  freshReader_def remoteOf_def iteration_def remoteOpen_def readFrom_def streamRead_def
  appendSeekOption_def openFails_def readFails_def liveHandle_def

subsection \<open>Option derivation\<close>

text \<open>
  C1. The options handed to the remote are a function of the offset, the limit and
  the passthrough options only: offset 0 without limit gives the passthrough options
  unchanged; a positive offset without limit appends exactly one seek directive for that
  offset; a positive offset with a limit appends exactly one range directive from the
  offset to the limit; offset 0 with a limit gives the passthrough options unchanged.
\<close>

theorem appendSeekOption_four_cases:
  "(off = 0 \<and> lim = - 1 \<longrightarrow> appendSeekOption opts off lim = opts) \<and>
   (0 <s off \<and> lim = - 1 \<longrightarrow> appendSeekOption opts off lim = opts @ [SeekOption off]) \<and>
   (0 <s off \<and> lim \<noteq> - 1 \<longrightarrow> appendSeekOption opts off lim = opts @ [RangeOption off lim]) \<and>
   (off = 0 \<and> lim \<noteq> - 1 \<longrightarrow> appendSeekOption opts off lim = opts)"
  by (simp add: appendSeekOption_def)

theorem appendSeekOption_four_cases_witness:
  "appendSeekOption [OtherOption 7] 0 (- 1) = [OtherOption 7] \<and>
   appendSeekOption [OtherOption 7] 100 (- 1) = [OtherOption 7, SeekOption 100] \<and>
   appendSeekOption [OtherOption 7] 100 500 = [OtherOption 7, RangeOption 100 500] \<and>
   appendSeekOption [OtherOption 7] 0 500 = [OtherOption 7]"
  using appendSeekOption_four_cases [of 0 "- 1" "[OtherOption 7]"]
        appendSeekOption_four_cases [of 100 "- 1" "[OtherOption 7]"]
        appendSeekOption_four_cases [of 100 500 "[OtherOption 7]"]
        appendSeekOption_four_cases [of 0 500 "[OtherOption 7]"]
  by (simp add: word_sless_alt)

text \<open>A negative offset, which the type allows, adds no directive either.\<close>

lemma appendSeekOption_nonpositive:
  "\<not> 0 <s off \<Longrightarrow> appendSeekOption opts off lim = opts"
  by (simp add: appendSeekOption_def)

subsection \<open>The checks before the loop\<close>

text \<open>
  C2. A read call makes its checks before any call on the remote, in this order: on a
  closed reader it fails with \<open>ErrorFileClosed\<close>; otherwise, once end of stream was
  reached, it returns no bytes and \<open>EOF\<close>; otherwise, when the limit is bounded and
  not above the offset, it marks end of stream reached and returns no bytes and \<open>EOF\<close>.
  In all three the remote and the live handle are left as they were.
\<close>

theorem hardReader_Read_fast_paths:
  "(closed r \<longrightarrow> hardReader_Read w r = Some (([], Some ErrorFileClosed), r, w)) \<and>
   (\<not> closed r \<and> eofReached r \<longrightarrow> hardReader_Read w r = Some (([], Some EOF), r, w)) \<and>
   (\<not> closed r \<and> limit r \<noteq> - 1 \<and> limit r \<le>s offset r \<longrightarrow>
      hardReader_Read w r = Some (([], Some EOF), r\<lparr>eofReached := True\<rparr>, w))"
  by (simp add: hardReader_Read_def)

theorem hardReader_Read_fast_paths_witness:
  "hardReader_Read (remoteOf [(Some (Stream [(''ab'', None)] None), None)])
     ((freshReader 0 (- 1))\<lparr>closed := True\<rparr>)
   = Some (([], Some ErrorFileClosed), (freshReader 0 (- 1))\<lparr>closed := True\<rparr>,
       remoteOf [(Some (Stream [(''ab'', None)] None), None)]) \<and>
   hardReader_Read (remoteOf [(Some (Stream [(''ab'', None)] None), None)])
     ((freshReader 2 (- 1))\<lparr>rc := Some (Stream [(''cd'', None)] None), eofReached := True\<rparr>)
   = Some (([], Some EOF),
       (freshReader 2 (- 1))\<lparr>rc := Some (Stream [(''cd'', None)] None), eofReached := True\<rparr>,
       remoteOf [(Some (Stream [(''ab'', None)] None), None)]) \<and>
   hardReader_Read (remoteOf [(Some (Stream [(''ab'', None)] None), None)])
     ((freshReader 8 8)\<lparr>rc := Some (Stream [(''cd'', None)] None)\<rparr>)
   = Some (([], Some EOF),
       (freshReader 8 8)\<lparr>rc := Some (Stream [(''cd'', None)] None), eofReached := True\<rparr>,
       remoteOf [(Some (Stream [(''ab'', None)] None), None)])"
  using
    hardReader_Read_fast_paths [of "(freshReader 0 (- 1))\<lparr>closed := True\<rparr>"
      "remoteOf [(Some (Stream [(''ab'', None)] None), None)]"]
    hardReader_Read_fast_paths [of
      "(freshReader 2 (- 1))\<lparr>rc := Some (Stream [(''cd'', None)] None), eofReached := True\<rparr>"
      "remoteOf [(Some (Stream [(''ab'', None)] None), None)]"]
    hardReader_Read_fast_paths [of
      "(freshReader 8 8)\<lparr>rc := Some (Stream [(''cd'', None)] None)\<rparr>"
      "remoteOf [(Some (Stream [(''ab'', None)] None), None)]"]
  by (simp add: freshReader_def word_sle_eq)

subsection \<open>Close\<close>

text \<open>
  C6. Close on a closed reader fails with \<open>ErrorFileClosed\<close> and changes nothing, so
  a second close is an error. On a reader not yet closed, a live handle is released and
  the error of that release is what close returns; without a live handle close returns
  no error and the remote is not touched. In both cases the object reference and the
  handle are cleared and the reader is closed, whatever the release reported.
\<close>

theorem hardReader_Close_contract:
  "(closed r \<longrightarrow> hardReader_Close w r = (Some ErrorFileClosed, r, w)) \<and>
   (\<not> closed r \<and> rc r = Some s \<longrightarrow>
      hardReader_Close w r =
        (closeErr s, r\<lparr>rc := None, o_ref := None, closed := True\<rparr>,
         w\<lparr>released := released w @ [s]\<rparr>)) \<and>
   (\<not> closed r \<and> rc r = None \<longrightarrow>
      hardReader_Close w r = (None, r\<lparr>rc := None, o_ref := None, closed := True\<rparr>, w)) \<and>
   (\<not> closed r \<longrightarrow>
      (case hardReader_Close w r of
         (err, r', w') \<Rightarrow>
           o_ref r' = None \<and> rc r' = None \<and> closed r' \<and>
           hardReader_Close w' r' = (Some ErrorFileClosed, r', w')))"
  by (simp add: hardReader_Close_def split: option.splits)

theorem hardReader_Close_contract_witness:
  "hardReader_Close (remoteOf []) ((freshReader 0 (- 1))\<lparr>closed := True\<rparr>)
     = (Some ErrorFileClosed, (freshReader 0 (- 1))\<lparr>closed := True\<rparr>, remoteOf []) \<and>
   hardReader_Close (remoteOf [])
       ((freshReader 3 8)\<lparr>rc := Some (Stream [(''45'', None)] (Some (RemoteError 9)))\<rparr>)
     = (Some (RemoteError 9), (freshReader 3 8)\<lparr>o_ref := None, closed := True\<rparr>,
        (remoteOf [])\<lparr>released := [Stream [(''45'', None)] (Some (RemoteError 9))]\<rparr>) \<and>
   hardReader_Close (remoteOf []) (freshReader 3 8)
     = (None, (freshReader 3 8)\<lparr>o_ref := None, closed := True\<rparr>, remoteOf []) \<and>
   hardReader_Close (remoteOf []) ((freshReader 3 8)\<lparr>o_ref := None, closed := True\<rparr>)
     = (Some ErrorFileClosed, (freshReader 3 8)\<lparr>o_ref := None, closed := True\<rparr>, remoteOf [])"
  using
    hardReader_Close_contract [of "(freshReader 0 (- 1))\<lparr>closed := True\<rparr>" "remoteOf []"]
    hardReader_Close_contract [of
      "(freshReader 3 8)\<lparr>rc := Some (Stream [(''45'', None)] (Some (RemoteError 9)))\<rparr>"
      "remoteOf []" "Stream [(''45'', None)] (Some (RemoteError 9))"]
    hardReader_Close_contract [of "freshReader 3 8" "remoteOf []"]
  by (auto simp: freshReader_def remoteOf_def)

subsection \<open>The facade's open\<close>

lemma scanOptions_acc:
  "scanOptions dec sz opts (acc, off, lim) =
     (acc @ filter isPassthrough opts,
      (if filter isDirective opts = [] then off else requestedOffset dec sz opts),
      (if filter isRange opts = [] then lim else requestedLimit dec sz opts))"
proof (induction opts arbitrary: acc off lim)
  case Nil
  then show ?case by simp
next
  case (Cons x xs)
  show ?case
  proof (cases x)
    case (SeekOption y)
    then show ?thesis
      using Cons.IH [of acc y lim]
      by (simp add: requestedOffset_def requestedLimit_def)
  next
    case (RangeOption s e)
    then show ?thesis
      using Cons.IH [of acc "fst (dec s e sz)" "snd (dec s e sz)"]
      by (simp add: requestedOffset_def requestedLimit_def)
  next
    case (OtherOption k)
    then show ?thesis
      using Cons.IH [of "acc @ [OtherOption k]" off lim]
      by (simp add: requestedOffset_def requestedLimit_def)
  qed
qed

lemma isPassthrough_iff: "isPassthrough x = (\<not> isDirective x)"
  by (cases x) simp_all

lemma filter_isRange_isDirective: "filter isRange (filter isDirective opts) = filter isRange opts"
proof (induction opts)
  case Nil
  then show ?case by simp
next
  case (Cons x xs)
  then show ?case by (cases x) simp_all
qed

text \<open>
  C7. For every list of directives, open returns a reader and no error. The reader's
  offset is that of the last seek or range directive (a range decoded against the
  object's size) and its limit that of the last range directive; without such a
  directive they are 0 and \<open>- 1\<close>. Its options are the other directives, unchanged and
  in order. It has no live handle and is neither closed nor at end of stream: open
  makes no call on the remote.
\<close>

theorem Object_Open_derives_reader:
  "Object_Open dec ob opts =
     (\<lparr>o_ref = Some ob, rc = None, options = filter isPassthrough opts,
       offset = requestedOffset dec (Size ob) opts,
       limit = requestedLimit dec (Size ob) opts,
       eofReached = False, closed = False\<rparr>, None) \<and>
   (filter isDirective opts = [] \<longrightarrow>
      requestedOffset dec (Size ob) opts = 0 \<and> requestedLimit dec (Size ob) opts = - 1 \<and>
      filter isPassthrough opts = opts) \<and>
   (filter isDirective opts = [SeekOption x] \<longrightarrow>
      requestedOffset dec (Size ob) opts = x \<and> requestedLimit dec (Size ob) opts = - 1) \<and>
   (filter isDirective opts = [RangeOption s e] \<longrightarrow>
      requestedOffset dec (Size ob) opts = fst (dec s e (Size ob)) \<and>
      requestedLimit dec (Size ob) opts = snd (dec s e (Size ob)))"
proof -
  have eq: "Object_Open dec ob opts =
     (\<lparr>o_ref = Some ob, rc = None, options = filter isPassthrough opts,
       offset = requestedOffset dec (Size ob) opts,
       limit = requestedLimit dec (Size ob) opts,
       eofReached = False, closed = False\<rparr>, None)"
    by (simp add: Object_Open_def scanOptions_acc requestedOffset_def requestedLimit_def)
  have none: "requestedOffset dec (Size ob) opts = 0 \<and> requestedLimit dec (Size ob) opts = - 1 \<and>
      filter isPassthrough opts = opts" if h: "filter isDirective opts = []"
  proof -
    have "filter isRange opts = []"
      using filter_isRange_isDirective [of opts] h by simp
    moreover have "filter isPassthrough opts = opts"
      using h by (simp add: filter_empty_conv filter_id_conv isPassthrough_iff)
    ultimately show ?thesis using h by (simp add: requestedOffset_def requestedLimit_def)
  qed
  have seek: "requestedOffset dec (Size ob) opts = x \<and> requestedLimit dec (Size ob) opts = - 1"
    if h: "filter isDirective opts = [SeekOption x]"
  proof -
    have "filter isRange opts = []"
      using filter_isRange_isDirective [of opts] h by simp
    then show ?thesis using h by (simp add: requestedOffset_def requestedLimit_def)
  qed
  have range: "requestedOffset dec (Size ob) opts = fst (dec s e (Size ob)) \<and>
      requestedLimit dec (Size ob) opts = snd (dec s e (Size ob))"
    if h: "filter isDirective opts = [RangeOption s e]"
  proof -
    have "filter isRange opts = [RangeOption s e]"
      using filter_isRange_isDirective [of opts] h by simp
    then show ?thesis using h by (simp add: requestedOffset_def requestedLimit_def)
  qed
  from eq none seek range show ?thesis by blast
qed

theorem Object_Open_derives_reader_witness:
  "Object_Open (\<lambda>s e sz. (s, e)) (FsObject ''obj'' 10) [OtherOption 1, OtherOption 2] =
     (\<lparr>o_ref = Some (FsObject ''obj'' 10), rc = None, options = [OtherOption 1, OtherOption 2],
       offset = 0, limit = - 1, eofReached = False, closed = False\<rparr>, None) \<and>
   Object_Open (\<lambda>s e sz. (s, e)) (FsObject ''obj'' 10) [OtherOption 1, SeekOption 4, OtherOption 2] =
     (\<lparr>o_ref = Some (FsObject ''obj'' 10), rc = None, options = [OtherOption 1, OtherOption 2],
       offset = 4, limit = - 1, eofReached = False, closed = False\<rparr>, None) \<and>
   Object_Open (\<lambda>s e sz. (s, e)) (FsObject ''obj'' 10) [RangeOption 3 8, OtherOption 2] =
     (\<lparr>o_ref = Some (FsObject ''obj'' 10), rc = None, options = [OtherOption 2],
       offset = 3, limit = 8, eofReached = False, closed = False\<rparr>, None)"
  using
    Object_Open_derives_reader [of "\<lambda>s e sz. (s, e)" "FsObject ''obj'' 10"
      "[OtherOption 1, OtherOption 2]"]
    Object_Open_derives_reader [of "\<lambda>s e sz. (s, e)" "FsObject ''obj'' 10"
      "[OtherOption 1, SeekOption 4, OtherOption 2]" 4]
    Object_Open_derives_reader [of "\<lambda>s e sz. (s, e)" "FsObject ''obj'' 10"
      "[RangeOption 3 8, OtherOption 2]" _ 3 8]
  by simp

subsection \<open>One pass of the loop\<close>

lemma readFrom_Continue:
  "readFrom w r s = Some (Continue r' w') \<Longrightarrow> r' = r\<lparr>rc := None\<rparr> \<and> w' = w"
  by (auto simp: readFrom_def split: option.splits prod.splits if_splits)

lemma readFrom_Return:
  "readFrom w r s = Some (Return bs err r' w') \<Longrightarrow>
     w' = w \<and> (err = None \<or> err = Some EOF) \<and>
     closed r' = closed r \<and> limit r' = limit r \<and> options r' = options r \<and>
     o_ref r' = o_ref r \<and> (eofReached r \<longrightarrow> eofReached r') \<and>
     (if err = Some EOF then offset r' = offset r \<and> eofReached r'
      else offset r' = offset r + of_nat (length bs) \<and> eofReached r' = eofReached r)"
  by (auto simp: readFrom_def split: option.splits prod.splits if_splits)

lemma remoteOpen_Some:
  "remoteOpen w opts = Some (ans, w') \<Longrightarrow>
     pending w = ans # pending w' \<and> requests w' = requests w @ [opts] \<and>
     released w' = released w"
  by (auto simp: remoteOpen_def split: list.splits)

lemma iteration_Continue:
  assumes "iteration w r = Some (Continue r' w')"
  shows "r' = r\<lparr>rc := None\<rparr> \<and> length (pending w') \<le> length (pending w) \<and>
         released w' = released w"
proof (cases "rc r")
  case (Some s)
  with assms have "readFrom w r s = Some (Continue r' w')" by (simp add: iteration_def)
  from readFrom_Continue [OF this] show ?thesis by simp
next
  case None
  show ?thesis
  proof (cases "remoteOpen w (appendSeekOption ([] @ options r) (offset r) (limit r))")
    case None
    with \<open>rc r = None\<close> assms show ?thesis by (simp add: iteration_def)
  next
    case (Some a)
    obtain h err w1 where a: "a = ((h, err), w1)" by (cases a) auto
    from remoteOpen_Some [OF Some [unfolded a]]
    have w1: "length (pending w1) \<le> length (pending w)" "released w1 = released w"
      by simp_all
    show ?thesis
    proof (cases "err = None")
      case False
      with \<open>rc r = None\<close> Some a assms w1 show ?thesis by (auto simp: iteration_def)
    next
      case True
      show ?thesis
      proof (cases h)
        case None
        with True \<open>rc r = None\<close> Some a assms show ?thesis by (simp add: iteration_def)
      next
        case (Some s)
        with True \<open>rc r = None\<close> \<open>remoteOpen _ _ = Some a\<close> a assms
        have "readFrom w1 (r\<lparr>rc := h\<rparr>) s = Some (Continue r' w')"
          by (simp add: iteration_def)
        from readFrom_Continue [OF this] w1 show ?thesis by simp
      qed
    qed
  qed
qed

lemma iteration_Return:
  assumes "iteration w r = Some (Return bs err r' w')"
  shows "(err = None \<or> err = Some EOF) \<and>
     closed r' = closed r \<and> limit r' = limit r \<and> options r' = options r \<and>
     o_ref r' = o_ref r \<and> (eofReached r \<longrightarrow> eofReached r') \<and>
     (if err = Some EOF then offset r' = offset r \<and> eofReached r'
      else offset r' = offset r + of_nat (length bs) \<and> eofReached r' = eofReached r)"
proof (cases "rc r")
  case (Some s)
  with assms have "readFrom w r s = Some (Return bs err r' w')" by (simp add: iteration_def)
  from readFrom_Return [OF this] show ?thesis by simp
next
  case None
  show ?thesis
  proof (cases "remoteOpen w (appendSeekOption ([] @ options r) (offset r) (limit r))")
    case None
    with \<open>rc r = None\<close> assms show ?thesis by (simp add: iteration_def)
  next
    case (Some a)
    obtain h e w1 where a: "a = ((h, e), w1)" by (cases a) auto
    show ?thesis
    proof (cases "e = None")
      case False
      with \<open>rc r = None\<close> Some a assms show ?thesis by (auto simp: iteration_def)
    next
      case True
      show ?thesis
      proof (cases h)
        case None
        with True \<open>rc r = None\<close> Some a assms show ?thesis by (simp add: iteration_def)
      next
        case (Some s)
        with True \<open>rc r = None\<close> \<open>remoteOpen _ _ = Some a\<close> a assms
        have "readFrom w1 (r\<lparr>rc := h\<rparr>) s = Some (Return bs err r' w')"
          by (simp add: iteration_def)
        from readFrom_Return [OF this] show ?thesis by simp
      qed
    qed
  qed
qed

lemma iteration_openFails:
  "openFails w r \<Longrightarrow>
     iteration w r =
       Some (Continue (r\<lparr>rc := None\<rparr>)
         (w\<lparr>pending := tl (pending w),
            requests := requests w @ [appendSeekOption (options r) (offset r) (limit r)]\<rparr>))"
  by (auto simp: openFails_def iteration_def remoteOpen_def split: list.splits option.splits)

lemma readFrom_fails:
  "reads s = (bs, Some e) # later \<Longrightarrow> e \<noteq> EOF \<Longrightarrow>
     readFrom w r s =
       Some (if bs = [] then Continue (r\<lparr>rc := None\<rparr>) w
             else Return bs None (r\<lparr>rc := None, offset := offset r + of_nat (length bs)\<rparr>) w)"
  by (simp add: readFrom_def streamRead_def)

lemma readFails_handle:
  "readFails w r bs \<Longrightarrow>
     \<exists>s e later. liveHandle w r = Some s \<and> reads s = (bs, Some e) # later \<and> e \<noteq> EOF"
  by (auto simp: readFails_def split: option.splits list.splits prod.splits)

lemma iteration_liveHandle:
  "liveHandle w r = Some s \<Longrightarrow>
     iteration w r =
       (if rc r = None then
          readFrom
            (w\<lparr>pending := tl (pending w),
               requests := requests w @ [appendSeekOption (options r) (offset r) (limit r)]\<rparr>)
            (r\<lparr>rc := Some s\<rparr>) s
        else readFrom w r s)"
  by (auto simp: liveHandle_def iteration_def remoteOpen_def
           split: option.splits list.splits prod.splits)

lemma iteration_readFails:
  assumes "readFails w r bs"
  shows "iteration w r =
       Some (if bs = [] then
               Continue (r\<lparr>rc := None\<rparr>)
                 (if rc r = None then
                    w\<lparr>pending := tl (pending w),
                       requests := requests w @ [appendSeekOption (options r) (offset r) (limit r)]\<rparr>
                  else w)
             else
               Return bs None (r\<lparr>rc := None, offset := offset r + of_nat (length bs)\<rparr>)
                 (if rc r = None then
                    w\<lparr>pending := tl (pending w),
                       requests := requests w @ [appendSeekOption (options r) (offset r) (limit r)]\<rparr>
                  else w))"
proof -
  from readFails_handle [OF assms] obtain s e later where
    h: "liveHandle w r = Some s" and rd: "reads s = (bs, Some e) # later" and e: "e \<noteq> EOF"
    by blast
  show ?thesis
    by (simp add: iteration_liveHandle [OF h] readFrom_fails [OF rd e])
qed

text \<open>
  C9. A pass of the loop whose open fails, whether or not the remote handed back a
  handle beside the error, and a pass whose underlying read returns an error other than
  end-of-data (with no byte, where the loop retries, or with some, where the call returns
  them), completes without a panic and leaves the reader without a live handle.
\<close>

theorem handle_null_after_failure:
  assumes "openFails w r \<or> readFails w r bs"
  shows "\<exists>out. iteration w r = Some out \<and> rc (outcomeReader out) = None \<and> \<not> panicked out"
  using assms iteration_openFails [of w r] iteration_readFails [of w r bs]
  by (cases "bs = []") auto

theorem handle_null_after_failure_witness:
  "(\<exists>out. iteration (remoteOf [(None, Some (RemoteError 1))]) (freshReader 3 8) = Some out
        \<and> rc (outcomeReader out) = None \<and> \<not> panicked out) \<and>
   (\<exists>out. iteration (remoteOf [(Some (Stream [(''34'', None)] None), Some (RemoteError 1))])
            (freshReader 3 8) = Some out
        \<and> rc (outcomeReader out) = None \<and> \<not> panicked out) \<and>
   (\<exists>out. iteration (remoteOf [])
            ((freshReader 3 8)\<lparr>rc := Some (Stream [([], Some (RemoteError 2))] None)\<rparr>) = Some out
        \<and> rc (outcomeReader out) = None \<and> \<not> panicked out) \<and>
   (\<exists>out. iteration (remoteOf [(Some (Stream [(''34'', Some (RemoteError 2))] None), None)])
            (freshReader 3 8) = Some out
        \<and> rc (outcomeReader out) = None \<and> \<not> panicked out)"
proof -
  have a: "openFails (remoteOf [(None, Some (RemoteError 1))]) (freshReader 3 8)"
    by (simp add: model_defs)
  have a': "openFails (remoteOf [(Some (Stream [(''34'', None)] None), Some (RemoteError 1))])
      (freshReader 3 8)"
    by (simp add: model_defs)
  have b: "readFails (remoteOf [])
      ((freshReader 3 8)\<lparr>rc := Some (Stream [([], Some (RemoteError 2))] None)\<rparr>) []"
    by (simp add: model_defs)
  have c: "readFails (remoteOf [(Some (Stream [(''34'', Some (RemoteError 2))] None), None)])
      (freshReader 3 8) ''34''"
    by (simp add: model_defs)
  show ?thesis
    using handle_null_after_failure [OF disjI1, OF a]
          handle_null_after_failure [OF disjI1, OF a']
          handle_null_after_failure [OF disjI2, OF b]
          handle_null_after_failure [OF disjI2, OF c]
    by blast
qed

subsection \<open>The loop\<close>

lemma readLoop_Continue:
  "iteration w r = Some (Continue r' w') \<Longrightarrow> readLoop w r = readLoop w' r'"
  by (subst readLoop.simps) simp

lemma readLoop_Return:
  "iteration w r = Some (Return bs err r' w') \<Longrightarrow> readLoop w r = Some ((bs, err), r', w')"
  by (subst readLoop.simps) simp

lemma retryStep_reader:
  "retryStep (w, r) (w1, r1) \<Longrightarrow> r1 = r\<lparr>rc := None\<rparr>"
  by (simp add: retryStep_def iteration_Continue)

lemma retries_reader:
  "retryStep\<^sup>*\<^sup>* a b \<Longrightarrow> snd b = snd a \<or> snd b = (snd a)\<lparr>rc := None\<rparr>"
proof (induction rule: rtranclp_induct)
  case base
  then show ?case by simp
next
  case (step y z)
  from step.hyps(2) have "snd z = (snd y)\<lparr>rc := None\<rparr>"
    using retryStep_reader [of "fst y" "snd y" "fst z" "snd z"] by simp
  with step.IH show ?case by auto
qed

lemma retries_readLoop:
  "retryStep\<^sup>*\<^sup>* a b \<Longrightarrow> readLoop (fst a) (snd a) = readLoop (fst b) (snd b)"
proof (induction rule: rtranclp_induct)
  case base
  then show ?case by simp
next
  case (step y z)
  from step.hyps(2) have "readLoop (fst y) (snd y) = readLoop (fst z) (snd z)"
    by (simp add: retryStep_def readLoop_Continue)
  with step.IH show ?case by simp
qed

text \<open>
  C4. Take a read call that gets past its checks and, after any number of retries, makes
  a pass in which the underlying read delivers at least one byte together with an error
  other than end-of-data. The call returns exactly those bytes with a nil error, the
  reader's handle is null, and its offset is the offset at the start of the call plus the
  number of bytes; nothing else of the reader changes.
\<close>

theorem swallowed_read_error:
  assumes "\<not> closed r" and "\<not> eofReached r" and "limit r = - 1 \<or> \<not> limit r \<le>s offset r"
    and "retryStep\<^sup>*\<^sup>* (w, r) (w1, r1)"
    and "readFails w1 r1 bs" and "bs \<noteq> []"
  shows "\<exists>w'. hardReader_Read w r =
           Some ((bs, None), r\<lparr>rc := None, offset := offset r + of_nat (length bs)\<rparr>, w')"
proof -
  have "hardReader_Read w r = readLoop w r"
    using assms(1-3) by (auto simp: hardReader_Read_def)
  also have "\<dots> = readLoop w1 r1"
    using retries_readLoop [OF assms(4)] by simp
  also obtain w' where "iteration w1 r1 =
      Some (Return bs None (r1\<lparr>rc := None, offset := offset r1 + of_nat (length bs)\<rparr>) w')"
    using iteration_readFails [OF assms(5)] assms(6) by simp
  then have "readLoop w1 r1 =
      Some ((bs, None), r1\<lparr>rc := None, offset := offset r1 + of_nat (length bs)\<rparr>, w')"
    by (rule readLoop_Return)
  also have "r1\<lparr>rc := None, offset := offset r1 + of_nat (length bs)\<rparr>
               = r\<lparr>rc := None, offset := offset r + of_nat (length bs)\<rparr>"
    using retries_reader [OF assms(4)] by auto
  finally show ?thesis by blast
qed

theorem swallowed_read_error_witness:
  "\<exists>w'. hardReader_Read
          (remoteOf [(None, Some (RemoteError 1)), (Some (Stream [(''ab'', Some (RemoteError 2))] None), None)])
          (freshReader 0 (- 1))
        = Some ((''ab'', None), (freshReader 0 (- 1))\<lparr>rc := None, offset := 2\<rparr>, w')"
proof -
  let ?r = "freshReader 0 (- 1)"
  let ?w = "remoteOf [(None, Some (RemoteError 1)), (Some (Stream [(''ab'', Some (RemoteError 2))] None), None)]"
  let ?w1 = "\<lparr>pending = [(Some (Stream [(''ab'', Some (RemoteError 2))] None), None)],
              requests = [[OtherOption 7]], released = []\<rparr>"
  have "retryStep (?w, ?r) (?w1, ?r)"
    by (simp add: retryStep_def model_defs)
  then have steps: "retryStep\<^sup>*\<^sup>* (?w, ?r) (?w1, ?r)" by (rule r_into_rtranclp)
  have a: "\<not> closed ?r" "\<not> eofReached ?r" "limit ?r = - 1 \<or> \<not> limit ?r \<le>s offset ?r"
    by (simp_all add: freshReader_def)
  have f: "readFails ?w1 ?r ''ab''" by (simp add: model_defs)
  have n: "''ab'' \<noteq> []" by simp
  from swallowed_read_error [OF a steps f n] show ?thesis
    by (simp add: freshReader_def)
qed

subsection \<open>What a read call returns\<close>

lemma readLoop_result:
  "readLoop w r = Some ((bs, err), r', w') \<Longrightarrow>
     (err = None \<or> err = Some EOF) \<and>
     closed r' = closed r \<and> limit r' = limit r \<and> options r' = options r \<and>
     o_ref r' = o_ref r \<and> (eofReached r \<longrightarrow> eofReached r') \<and>
     (if err = Some EOF then offset r' = offset r \<and> eofReached r'
      else offset r' = offset r + of_nat (length bs) \<and> eofReached r' = eofReached r)"
proof (induction w r rule: readLoop.induct)
  case (1 w r)
  show ?case
  proof (cases "iteration w r")
    case None
    with "1.prems" show ?thesis by (simp add: readLoop.simps)
  next
    case (Some out)
    show ?thesis
    proof (cases out)
      case (Continue r1 w1)
      with Some have it: "iteration w r = Some (Continue r1 w1)" by simp
      from "1.prems" readLoop_Continue [OF it]
      have "readLoop w1 r1 = Some ((bs, err), r', w')" by simp
      from "1.IH" [OF Some Continue this] iteration_Continue [OF it]
      show ?thesis by simp
    next
      case (Return bs1 err1 r1 w1)
      with Some have it: "iteration w r = Some (Return bs1 err1 r1 w1)" by simp
      from "1.prems" readLoop_Return [OF it]
      have "bs1 = bs" "err1 = err" "r1 = r'" "w1 = w'" by simp_all
      with iteration_Return [OF it] show ?thesis by (auto split: if_splits)
    next
      case (Panic r1 w1)
      with Some "1.prems" show ?thesis by (simp add: readLoop.simps)
    qed
  qed
qed

lemma hardReader_Read_result:
  assumes "hardReader_Read w r = Some ((bs, err), r', w')"
  shows "closed r' = closed r \<and> limit r' = limit r \<and> options r' = options r \<and>
         o_ref r' = o_ref r \<and> (eofReached r \<longrightarrow> eofReached r') \<and>
         (err = None \<or> err = Some EOF \<or> err = Some ErrorFileClosed) \<and>
         (offset r' = offset r \<or> offset r' = offset r + of_nat (length bs))"
proof (cases "closed r \<or> eofReached r \<or> (limit r \<noteq> - 1 \<and> limit r \<le>s offset r)")
  case True
  with assms show ?thesis by (auto simp: hardReader_Read_def split: if_splits)
next
  case False
  with assms have "readLoop w r = Some ((bs, err), r', w')"
    by (auto simp: hardReader_Read_def split: if_splits)
  from readLoop_result [OF this] show ?thesis by (auto split: if_splits)
qed

text \<open>
  C5. The only errors a read call returns are \<open>EOF\<close> and \<open>ErrorFileClosed\<close>. A pass
  of the loop that meets a failed open, or an underlying read error without a byte, does not
  return: it continues with the handle null and nothing else of the reader changed, and a
  reopen asks the remote with the options derived from the reader's offset and limit. A
  call that gets past its checks returns what the passes after any number of such retries
  return, with the same offset, limit and options.
\<close>

theorem only_eof_and_closed_surface:
  "(hardReader_Read w r = Some ((bs, Some e), r', w') \<longrightarrow> e = EOF \<or> e = ErrorFileClosed) \<and>
   (openFails w r \<or> readFails w r [] \<longrightarrow>
      (\<exists>w1. iteration w r = Some (Continue (r\<lparr>rc := None\<rparr>) w1) \<and>
            (rc r = None \<longrightarrow>
               requests w1 =
                 requests w @ [appendSeekOption (options r) (offset r) (limit r)]))) \<and>
   (\<not> closed r \<and> \<not> eofReached r \<and> (limit r = - 1 \<or> \<not> limit r \<le>s offset r) \<and>
    retryStep\<^sup>*\<^sup>* (w, r) (w1, r1) \<longrightarrow>
      hardReader_Read w r = hardReader_Read w1 r1 \<and>
      offset r1 = offset r \<and> limit r1 = limit r \<and> options r1 = options r)"
proof -
  have a: "e = EOF \<or> e = ErrorFileClosed"
    if "hardReader_Read w r = Some ((bs, Some e), r', w')"
    using hardReader_Read_result [OF that] by simp
  have b: "\<exists>w1. iteration w r = Some (Continue (r\<lparr>rc := None\<rparr>) w1) \<and>
            (rc r = None \<longrightarrow>
               requests w1 =
                 requests w @ [appendSeekOption (options r) (offset r) (limit r)])"
    if "openFails w r \<or> readFails w r []"
    using that iteration_openFails [of w r] iteration_readFails [of w r "[]"] by auto
  have c: "hardReader_Read w r = hardReader_Read w1 r1 \<and>
      offset r1 = offset r \<and> limit r1 = limit r \<and> options r1 = options r"
    if h: "\<not> closed r" "\<not> eofReached r" "limit r = - 1 \<or> \<not> limit r \<le>s offset r"
      "retryStep\<^sup>*\<^sup>* (w, r) (w1, r1)"
  proof -
    from retries_reader [OF h(4)] have r1: "r1 = r \<or> r1 = r\<lparr>rc := None\<rparr>" by simp
    from retries_readLoop [OF h(4)] have "readLoop w r = readLoop w1 r1" by simp
    with h(1-3) r1 show ?thesis by (auto simp: hardReader_Read_def)
  qed
  from a b c show ?thesis by blast
qed

theorem only_eof_and_closed_surface_witness:
  "hardReader_Read
     (remoteOf [(None, Some (RemoteError 1)), (Some (Stream [([], Some (RemoteError 2))] None), None),
                (Some (Stream [(''ab'', Some EOF)] None), None)])
     (freshReader 0 (- 1))
   = Some ((''ab'', Some EOF),
       (freshReader 0 (- 1))\<lparr>rc := Some (Stream [] None), eofReached := True\<rparr>,
       \<lparr>pending = [], requests = [[OtherOption 7], [OtherOption 7], [OtherOption 7]],
        released = []\<rparr>) \<and>
   (EOF = EOF \<or> EOF = ErrorFileClosed) \<and>
   (\<exists>w1. iteration (remoteOf [(None, Some (RemoteError 1))]) (freshReader 3 8) =
           Some (Continue ((freshReader 3 8)\<lparr>rc := None\<rparr>) w1) \<and>
         requests w1 = [[OtherOption 7, RangeOption 3 8]])"
proof -
  let ?r = "freshReader 0 (- 1)"
  let ?w = "remoteOf [(None, Some (RemoteError 1)), (Some (Stream [([], Some (RemoteError 2))] None), None),
                (Some (Stream [(''ab'', Some EOF)] None), None)]"
  let ?w1 = "\<lparr>pending = [(Some (Stream [([], Some (RemoteError 2))] None), None),
                (Some (Stream [(''ab'', Some EOF)] None), None)],
              requests = [[OtherOption 7]], released = []\<rparr>"
  let ?w2 = "\<lparr>pending = [(Some (Stream [(''ab'', Some EOF)] None), None)],
              requests = [[OtherOption 7], [OtherOption 7]], released = []\<rparr>"
  let ?res = "Some ((''ab'', Some EOF), ?r\<lparr>rc := Some (Stream [] None), eofReached := True\<rparr>,
       \<lparr>pending = [], requests = [[OtherOption 7], [OtherOption 7], [OtherOption 7]],
        released = []\<rparr>)"
  have s1: "retryStep (?w, ?r) (?w1, ?r)" by (simp add: retryStep_def model_defs)
  have s2: "retryStep (?w1, ?r) (?w2, ?r)" by (simp add: retryStep_def model_defs)
  from s1 s2 have steps: "retryStep\<^sup>*\<^sup>* (?w, ?r) (?w2, ?r)" by (rule converse_rtranclp_into_rtranclp [OF _ r_into_rtranclp])
  have pre: "\<not> closed ?r \<and> \<not> eofReached ?r \<and> (limit ?r = - 1 \<or> \<not> limit ?r \<le>s offset ?r)"
    by (simp add: freshReader_def)
  have last: "hardReader_Read ?w2 ?r = ?res"
    by (simp add: hardReader_Read_def readLoop.simps model_defs)
  have f: "openFails (remoteOf [(None, Some (RemoteError 1))]) (freshReader 3 8)"
    by (simp add: model_defs)
  have rcn: "rc (freshReader 3 8) = None" by (simp add: freshReader_def)
  have whole: "hardReader_Read ?w ?r = ?res"
    using only_eof_and_closed_surface [of ?w ?r _ _ _ _ ?w2 ?r] pre steps last by simp
  from only_eof_and_closed_surface [of ?w ?r "''ab''" EOF
         "?r\<lparr>rc := Some (Stream [] None), eofReached := True\<rparr>"
         "\<lparr>pending = [], requests = [[OtherOption 7], [OtherOption 7], [OtherOption 7]],
           released = []\<rparr>"] whole
  have e: "EOF = EOF \<or> EOF = ErrorFileClosed" by blast
  from only_eof_and_closed_surface [of "remoteOf [(None, Some (RemoteError 1))]" "freshReader 3 8"] f rcn
  have "\<exists>w1. iteration (remoteOf [(None, Some (RemoteError 1))]) (freshReader 3 8) =
           Some (Continue ((freshReader 3 8)\<lparr>rc := None\<rparr>) w1) \<and>
         requests w1 = requests (remoteOf [(None, Some (RemoteError 1))]) @
            [appendSeekOption (options (freshReader 3 8)) (offset (freshReader 3 8)) (limit (freshReader 3 8))]"
    by blast
  then have o: "\<exists>w1. iteration (remoteOf [(None, Some (RemoteError 1))]) (freshReader 3 8) =
           Some (Continue ((freshReader 3 8)\<lparr>rc := None\<rparr>) w1) \<and>
         requests w1 = [[OtherOption 7, RangeOption 3 8]]"
    by (simp add: freshReader_def remoteOf_def appendSeekOption_def word_sless_alt)
  from whole e o show ?thesis by blast
qed

subsection \<open>The bound at the start of a call\<close>

text \<open>
  C10 as stated fails on a closed reader: a call that begins with the offset at the
  bounded limit returns \<open>ErrorFileClosed\<close> there, not \<open>EOF\<close>.
\<close>

theorem closed_reader_counterexample:
  "hardReader_Read (remoteOf [(Some (Stream [(''ab'', None)] None), None)])
     ((freshReader 5 5)\<lparr>closed := True\<rparr>)
   = Some (([], Some ErrorFileClosed), (freshReader 5 5)\<lparr>closed := True\<rparr>,
       remoteOf [(Some (Stream [(''ab'', None)] None), None)]) \<and>
   limit ((freshReader 5 5)\<lparr>closed := True\<rparr>) \<le>s offset ((freshReader 5 5)\<lparr>closed := True\<rparr>) \<and>
   limit ((freshReader 5 5)\<lparr>closed := True\<rparr>) \<noteq> - 1 \<and>
   ErrorFileClosed \<noteq> EOF"
  by (simp add: hardReader_Read_def freshReader_def)

text \<open>
  C10, amended. A read call that begins with a bounded limit not above the offset makes
  no call on the remote, leaves handle and offset alone and returns no bytes, with
  \<open>EOF\<close>, or with \<open>ErrorFileClosed\<close> when the reader is closed. So a call that
  returns bytes under a bounded limit began with the offset below the limit. This holds
  also for offset 0 with a bounded limit, where the options sent to the remote carry no
  range directive.
\<close>

theorem bound_enforced_per_call:
  "(limit r \<noteq> - 1 \<and> limit r \<le>s offset r \<longrightarrow>
      (\<exists>r'. hardReader_Read w r =
              Some (([], Some (if closed r then ErrorFileClosed else EOF)), r', w) \<and>
            rc r' = rc r \<and> offset r' = offset r)) \<and>
   (hardReader_Read w r = Some ((bs, err), r', w') \<and> bs \<noteq> [] \<and> limit r \<noteq> - 1 \<longrightarrow>
      offset r <s limit r) \<and>
   (offset r = 0 \<and> limit r \<noteq> - 1 \<longrightarrow>
      appendSeekOption (options r) (offset r) (limit r) = options r)"
  by (auto simp: hardReader_Read_def appendSeekOption_def word_sle_eq word_sless_alt
           split: if_splits)

theorem bound_enforced_per_call_witness:
  "(\<exists>r'. hardReader_Read (remoteOf [(Some (Stream [(''ab'', None)] None), None)]) (freshReader 5 5) =
           Some (([], Some EOF), r', remoteOf [(Some (Stream [(''ab'', None)] None), None)]) \<and>
         rc r' = None \<and> offset r' = 5) \<and>
   (0 :: int64) <s 5 \<and>
   appendSeekOption [OtherOption 7] 0 5 = [OtherOption 7]"
proof -
  let ?w = "remoteOf [(Some (Stream [(''ab'', None)] None), None)]"
  have h1: "limit (freshReader 5 5) \<noteq> - 1 \<and> limit (freshReader 5 5) \<le>s offset (freshReader 5 5)"
    by (simp add: freshReader_def)
  have h2: "hardReader_Read ?w (freshReader 0 5) =
      Some ((''ab'', None), (freshReader 0 5)\<lparr>rc := Some (Stream [] None), offset := 2\<rparr>,
        \<lparr>pending = [], requests = [[OtherOption 7]], released = []\<rparr>) \<and>
      ''ab'' \<noteq> [] \<and> limit (freshReader 0 5) \<noteq> - 1"
    by (simp add: hardReader_Read_def readLoop.simps model_defs word_sle_eq word_sless_alt)
  have h3: "offset (freshReader 0 5) = 0 \<and> limit (freshReader 0 5) \<noteq> - 1"
    by (simp add: freshReader_def)
  from bound_enforced_per_call [of "freshReader 5 5" ?w] h1
       bound_enforced_per_call [of "freshReader 0 5" ?w "''ab''" None
         "(freshReader 0 5)\<lparr>rc := Some (Stream [] None), offset := 2\<rparr>"
         "\<lparr>pending = [], requests = [[OtherOption 7]], released = []\<rparr>"] h2 h3
  show ?thesis by (simp add: freshReader_def)
qed

subsection \<open>Successive read calls\<close>

lemma sint_add_of_nat:
  fixes x :: int64
  assumes "sint x + int n < 2 ^ 63"
  shows "sint (x + of_nat n) = sint x + int n"
proof -
  have lo: "- (2 ^ 63) \<le> sint x" using sint_ge [of x] by simp
  have "x + of_nat n = word_of_int (sint x + int n)" by simp
  then have "sint (x + of_nat n) = signed_take_bit 63 (sint x + int n)"
    by (simp only: sint_sbintrunc') simp
  also have "\<dots> = sint x + int n"
    using assms lo by (intro signed_take_bit_int_eq_self) simp_all
  finally show ?thesis .
qed

lemma hardReader_Read_offset_bounds:
  assumes "hardReader_Read w r = Some ((bs, err), r', w')"
    and "sint (offset r) + int (length bs) < 2 ^ 63"
  shows "sint (offset r) \<le> sint (offset r') \<and>
         sint (offset r') \<le> sint (offset r) + int (length bs)"
  using hardReader_Read_result [OF assms(1)] sint_add_of_nat [OF assms(2)] by auto

lemma readCalls_offset_bounds:
  "readCalls k w r = Some (ress, r', w') \<Longrightarrow>
   sint (offset r) + int (delivered ress) < 2 ^ 63 \<Longrightarrow>
     sint (offset r) \<le> sint (offset r') \<and>
     sint (offset r') \<le> sint (offset r) + int (delivered ress)"
proof (induction k arbitrary: w r ress)
  case 0
  then show ?case by (simp add: delivered_def)
next
  case (Suc k)
  from Suc.prems(1) obtain bs err r1 w1 ress1 where
    first: "hardReader_Read w r = Some ((bs, err), r1, w1)" and
    rest: "readCalls k w1 r1 = Some (ress1, r', w')" and
    ress: "ress = (bs, err) # ress1"
    by (auto split: option.splits prod.splits)
  from ress have d: "delivered ress = length bs + delivered ress1"
    by (simp add: delivered_def)
  with Suc.prems(2) have "sint (offset r) + int (length bs) < 2 ^ 63" by simp
  from hardReader_Read_offset_bounds [OF first this]
  have b1: "sint (offset r) \<le> sint (offset r1)"
    "sint (offset r1) \<le> sint (offset r) + int (length bs)" by simp_all
  with Suc.prems(2) d have "sint (offset r1) + int (delivered ress1) < 2 ^ 63" by simp
  from Suc.IH [OF rest this] b1 d show ?case by simp
qed

lemma readCalls_at_eof:
  "\<not> closed r \<Longrightarrow> eofReached r \<Longrightarrow>
     readCalls k w r = Some (replicate k ([], Some EOF), r, w)"
  by (induction k) (simp_all add: hardReader_Read_def)

lemma readCalls_eof_kept:
  "readCalls k w r = Some (ress, r', w') \<Longrightarrow> eofReached r \<Longrightarrow> eofReached r'"
proof (induction k arbitrary: w r ress)
  case 0
  then show ?case by simp
next
  case (Suc k)
  from Suc.prems(1) obtain bs err r1 w1 ress1 where
    first: "hardReader_Read w r = Some ((bs, err), r1, w1)" and
    rest: "readCalls k w1 r1 = Some (ress1, r', w')"
    by (auto split: option.splits prod.splits)
  from hardReader_Read_result [OF first] Suc.prems(2) have "eofReached r1" by simp
  from Suc.IH [OF rest this] show ?case .
qed

text \<open>
  C8 as stated fails where the addition overflows: a reader at offset \<open>2^63 - 1\<close>
  that is given one byte ends at offset \<open>- 2^63\<close>.
\<close>

theorem offset_wraps_counterexample:
  "hardReader_Read (remoteOf [(Some (Stream [(''a'', None)] None), None)])
     (freshReader 9223372036854775807 (- 1))
   = Some ((''a'', None),
       (freshReader 9223372036854775807 (- 1))
         \<lparr>rc := Some (Stream [] None), offset := - 9223372036854775808\<rparr>,
       \<lparr>pending = [], requests = [[OtherOption 7, SeekOption 9223372036854775807]],
        released = []\<rparr>) \<and>
   \<not> (9223372036854775807 :: int64) \<le>s - 9223372036854775808"
  by (simp add: hardReader_Read_def readLoop.simps model_defs word_sle_eq word_sless_alt)

text \<open>
  C8, amended. On a reader that is not closed and has reached end of stream, every run
  of read calls returns no bytes and \<open>EOF\<close> each time and leaves the reader and the
  remote as they were. Over every run of read calls that return, end of stream reached
  stays reached, and the offset at the end is not below the offset at the start as long
  as the start offset plus the bytes delivered stays below \<open>2^63\<close>.
\<close>

theorem offset_monotone_within_int64:
  "(\<not> closed r \<and> eofReached r \<longrightarrow>
      readCalls k w r = Some (replicate k ([], Some EOF), r, w)) \<and>
   (readCalls k w r = Some (ress, r', w') \<longrightarrow>
      (eofReached r \<longrightarrow> eofReached r') \<and>
      (sint (offset r) + int (delivered ress) < 2 ^ 63 \<longrightarrow> offset r \<le>s offset r'))"
  using readCalls_at_eof [of r k w] readCalls_eof_kept [of k w r ress r' w']
        readCalls_offset_bounds [of k w r ress r' w']
  by (auto simp: word_sle_eq)

theorem offset_monotone_within_int64_witness:
  "readCalls 2 (remoteOf []) ((freshReader 8 8)\<lparr>eofReached := True\<rparr>) =
     Some ([([], Some EOF), ([], Some EOF)], (freshReader 8 8)\<lparr>eofReached := True\<rparr>, remoteOf []) \<and>
   (3 :: int64) \<le>s 8"
proof -
  have h1: "\<not> closed ((freshReader 8 8)\<lparr>eofReached := True\<rparr>) \<and>
            eofReached ((freshReader 8 8)\<lparr>eofReached := True\<rparr>)"
    by (simp add: freshReader_def)
  have h2: "readCalls 3 (scenarioRemote False) (freshReader 3 8) =
     Some ([(''345'', None), (''67'', None), ([], Some EOF)],
           (freshReader 3 8)\<lparr>rc := Some (Stream [([], Some EOF)] None), offset := 8,
                               eofReached := True\<rparr>,
           \<lparr>pending = [],
            requests = [[OtherOption 7, RangeOption 3 8], [OtherOption 7, RangeOption 3 8],
                        [OtherOption 7, RangeOption 6 8]],
            released = []\<rparr>)"
    by (simp add: scenarioRemote_def hardReader_Read_def readLoop.simps model_defs
                  numeral_3_eq_3 word_sle_eq word_sless_alt)
  have h3: "sint (offset (freshReader 3 8))
              + int (delivered [(''345'', None), (''67'', None), ([], Some EOF)]) < 2 ^ 63"
    by (simp add: freshReader_def delivered_def)
  from offset_monotone_within_int64 [of "(freshReader 8 8)\<lparr>eofReached := True\<rparr>" 2 "remoteOf []"] h1
       offset_monotone_within_int64 [of "freshReader 3 8" 3 "scenarioRemote False"
         "[(''345'', None), (''67'', None), ([], Some EOF)]"
         "(freshReader 3 8)\<lparr>rc := Some (Stream [([], Some EOF)] None), offset := 8,
                               eofReached := True\<rparr>"
         "\<lparr>pending = [],
            requests = [[OtherOption 7, RangeOption 3 8], [OtherOption 7, RangeOption 3 8],
                        [OtherOption 7, RangeOption 6 8]],
            released = []\<rparr>"] h2 h3
  show ?thesis by (simp add: freshReader_def numeral_2_eq_2)
qed

subsection \<open>The scenario of the specification\<close>

text \<open>
  C3 as stated fails when the second handle signals end-of-data together with
  \<^verbatim>\<open>67\<close>: the calls return \<^verbatim>\<open>345\<close>, \<^verbatim>\<open>67\<close> with \<open>EOF\<close>, and no bytes with
  \<open>EOF\<close>, but the return on end-of-data does not advance the offset, which ends at 6.
\<close>

theorem scenario_final_offset_counterexample:
  "readCalls 3 (scenarioRemote True) (freshReader 3 8) =
     Some ([(''345'', None), (''67'', Some EOF), ([], Some EOF)],
           (freshReader 3 8)\<lparr>rc := Some (Stream [] None), offset := 6, eofReached := True\<rparr>,
           \<lparr>pending = [],
            requests = [[OtherOption 7, RangeOption 3 8], [OtherOption 7, RangeOption 3 8],
                        [OtherOption 7, RangeOption 6 8]],
            released = []\<rparr>) \<and>
   (6 :: int64) \<noteq> 8"
  by (simp add: scenarioRemote_def hardReader_Read_def readLoop.simps model_defs
                numeral_3_eq_3 word_sle_eq word_sless_alt)

text \<open>
  C3, amended. With offset 3 and limit 8, the first open failing once and the first
  handle delivering \<^verbatim>\<open>345\<close> and then failing without a byte, the remote is asked three
  times: for the range from 3, again for the range from 3, and for the range from 6 to 8.
  When the second handle signals end-of-data on a read of its own after \<^verbatim>\<open>67\<close>, the
  calls return \<^verbatim>\<open>345\<close>, then \<^verbatim>\<open>67\<close>, then no bytes with \<open>EOF\<close>, and the offset ends
  at 8. When it signals end-of-data together with \<^verbatim>\<open>67\<close>, the calls return \<^verbatim>\<open>345\<close>,
  then \<^verbatim>\<open>67\<close> with \<open>EOF\<close>, then no bytes with \<open>EOF\<close>.
\<close>

theorem scenario_reads:
  "readCalls 3 (scenarioRemote False) (freshReader 3 8) =
     Some ([(''345'', None), (''67'', None), ([], Some EOF)],
           (freshReader 3 8)\<lparr>rc := Some (Stream [([], Some EOF)] None), offset := 8,
                               eofReached := True\<rparr>,
           \<lparr>pending = [],
            requests = [[OtherOption 7, RangeOption 3 8], [OtherOption 7, RangeOption 3 8],
                        [OtherOption 7, RangeOption 6 8]],
            released = []\<rparr>) \<and>
   map_option fst (readCalls 3 (scenarioRemote True) (freshReader 3 8)) =
     Some [(''345'', None), (''67'', Some EOF), ([], Some EOF)] \<and>
   map_option (\<lambda>res. requests (snd (snd res)))
       (readCalls 3 (scenarioRemote True) (freshReader 3 8)) =
     Some [[OtherOption 7, RangeOption 3 8], [OtherOption 7, RangeOption 3 8],
           [OtherOption 7, RangeOption 6 8]]"
  by (simp add: scenarioRemote_def hardReader_Read_def readLoop.simps model_defs
                numeral_3_eq_3 word_sle_eq word_sless_alt)

end
